theory Spec2Isabelle
  imports Main
begin

section \<open>Texts and the regular expressions of the source\<close>

text \<open>
  A JavaScript string is modelled as a \<^typ>\<open>string\<close>: a list of code units, here the
  units \<open>0x00 .. 0xFF\<close>. On this range \<open>toLowerCase\<close> moves \<open>A-Z\<close> and the
  upper-case letters \<open>0xC0 .. 0xDE\<close> (without the multiplication sign \<open>0xD7\<close>) up by 32,
  and the class \<open>\s\<close> (also what \<open>trim\<close> strips) holds tab, line feed, vertical tab, form
  feed, carriage return, space and the no-break space.
\<close>

definition code :: "char \<Rightarrow> nat" where
  "code c = of_char c"

definition toLowerChar :: "char \<Rightarrow> char" where
  "toLowerChar c =
     (if (65 \<le> code c \<and> code c \<le> 90) \<or> (192 \<le> code c \<and> code c \<le> 222 \<and> code c \<noteq> 215)
      then char_of (code c + 32) else c)"

definition toLowerCase :: "string \<Rightarrow> string" where
  "toLowerCase s = map toLowerChar s"

text \<open>Character classes: \<open>\s\<close>, \<open>\w\<close>, \<open>[A-Z]\<close>, and \<open>.\<close> (anything but a line terminator).\<close>

definition isSpace :: "char \<Rightarrow> bool" where
  "isSpace c = (code c = 9 \<or> code c = 10 \<or> code c = 11 \<or> code c = 12 \<or> code c = 13
                \<or> code c = 32 \<or> code c = 160)"

definition isUpperAZ :: "char \<Rightarrow> bool" where
  "isUpperAZ c = (65 \<le> code c \<and> code c \<le> 90)"

definition isWord :: "char \<Rightarrow> bool" where
  "isWord c = ((65 \<le> code c \<and> code c \<le> 90) \<or> (97 \<le> code c \<and> code c \<le> 122)
               \<or> (48 \<le> code c \<and> code c \<le> 57) \<or> code c = 95)"

definition isDot :: "char \<Rightarrow> bool" where
  "isDot c = (code c \<noteq> 10 \<and> code c \<noteq> 13)"

text \<open>
  Under the flag \<open>i\<close> a pattern letter of \<open>a-z\<close> matches itself and its upper-case
  form: the canonical form of a unit is its upper-case form, and no unit from \<open>0x80\<close> on is
  mapped below \<open>0x80\<close>.
\<close>

definition canon :: "char \<Rightarrow> char" where
  "canon c = (if 97 \<le> code c \<and> code c \<le> 122 then char_of (code c - 32) else c)"

text \<open>
  The patterns of the source are sequences of: a literal, a literal under the flag \<open>i\<close>,
  a greedy repetition of a character class (least count, greatest count if there is one,
  and whether the repetition is a capture group), the end of input \<open>$\<close> and the word
  boundary \<open>\b\<close>. \<open>exec_items\<close> matches such a sequence at the start of a text, with the
  unit before the text at hand for \<open>\b\<close>; a repetition first takes all it can and gives back
  one unit at a time, as a backtracking matcher does. The result is the list of captures
  and the text left after the match.
\<close>

type_synonym cclass = "char \<Rightarrow> bool"

datatype item =
    Lit string
  | LitI string
  | Rep cclass nat "nat option" bool
  | Eol
  | WordB

primrec firstSome :: "'a option list \<Rightarrow> 'a option" where
  "firstSome [] = None"
| "firstSome (x # xs) = (case x of Some y \<Rightarrow> Some y | None \<Rightarrow> firstSome xs)"

definition lastOf :: "char option \<Rightarrow> string \<Rightarrow> char option" where
  "lastOf prev taken = (case rev taken of [] \<Rightarrow> prev | c # _ \<Rightarrow> Some c)"

definition wordAt :: "char option \<Rightarrow> bool" where
  "wordAt x = (case x of None \<Rightarrow> False | Some c \<Rightarrow> isWord c)"

definition headOf :: "string \<Rightarrow> char option" where
  "headOf s = (case s of [] \<Rightarrow> None | c # _ \<Rightarrow> Some c)"

definition greedy :: "cclass \<Rightarrow> nat option \<Rightarrow> string \<Rightarrow> nat" where
  "greedy cls mx s =
     (case mx of None \<Rightarrow> length (takeWhile cls s)
               | Some m \<Rightarrow> min m (length (takeWhile cls s)))"

primrec exec_items ::
  "item list \<Rightarrow> char option \<Rightarrow> string \<Rightarrow> string list \<Rightarrow> (string list \<times> string) option"
where
  "exec_items [] prev s caps = Some (caps, s)"
| "exec_items (it # rest) prev s caps =
     (case it of
        Lit l \<Rightarrow>
          if take (length l) s = l
          then exec_items rest (lastOf prev l) (drop (length l) s) caps
          else None
      | LitI l \<Rightarrow>
          if map canon (take (length l) s) = map canon l
          then exec_items rest (lastOf prev (take (length l) s)) (drop (length l) s) caps
          else None
      | Rep cls mn mx cap \<Rightarrow>
          firstSome
            (map (\<lambda>k. exec_items rest (lastOf prev (take k s)) (drop k s)
                         (if cap then caps @ [take k s] else caps))
                 (rev [mn ..< Suc (greedy cls mx s)]))
      | Eol \<Rightarrow> if s = [] then exec_items rest prev s caps else None
      | WordB \<Rightarrow>
          if wordAt prev \<noteq> wordAt (headOf s) then exec_items rest prev s caps else None)"

text \<open>\<open>regex.test\<close> for a pattern that starts with \<open>^\<close>, and for one that does not.\<close>

definition test_anchored :: "item list \<Rightarrow> string \<Rightarrow> bool" where
  "test_anchored re s = (exec_items re None s [] \<noteq> None)"

fun test_search :: "item list \<Rightarrow> char option \<Rightarrow> string \<Rightarrow> bool" where
  "test_search re prev [] = (exec_items re prev [] [] \<noteq> None)"
| "test_search re prev (c # t) =
     (exec_items re prev (c # t) [] \<noteq> None \<or> test_search re (Some c) t)"

text \<open>\<open>s.split(sep)\<close> for a separator of one unit, and \<open>s.includes(sub)\<close>.\<close>

fun split :: "char \<Rightarrow> string \<Rightarrow> string list" where
  "split sep [] = [[]]"
| "split sep (c # t) =
     (if c = sep then [] # split sep t
      else (case split sep t of [] \<Rightarrow> [[c]] | w # ws \<Rightarrow> (c # w) # ws))"

fun includesStr :: "string \<Rightarrow> string \<Rightarrow> bool" where
  "includesStr [] sub = (sub = [])"
| "includesStr (c # t) sub = (take (length sub) (c # t) = sub \<or> includesStr t sub)"

definition trim :: "string \<Rightarrow> string" where
  "trim s = rev (dropWhile isSpace (rev (dropWhile isSpace s)))"

section \<open>The chat client: parsing an inbound line\<close>

record ChatMessage =
  cm_id :: string
  username :: string
  message :: string
  timestamp :: nat
  isBot :: bool
  badges :: "string list"

text \<open>
  \<open>/^@([^:]*):([^!]+)![^@]+@[^.]+\.tmi\.twitch\.tv PRIVMSG #[^\s]+ :(.+)$/\<close>
\<close>

definition privmsgRegex :: "item list" where
  "privmsgRegex =
     [Lit ''@'', Rep (\<lambda>c. c \<noteq> CHR '':'') 0 None True,
      Lit '':'', Rep (\<lambda>c. c \<noteq> CHR ''!'') 1 None True,
      Lit ''!'', Rep (\<lambda>c. c \<noteq> CHR ''@'') 1 None False,
      Lit ''@'', Rep (\<lambda>c. c \<noteq> CHR ''.'') 1 None False,
      Lit ''.tmi.twitch.tv PRIVMSG #'', Rep (\<lambda>c. \<not> isSpace c) 1 None False,
      Lit '' :'', Rep isDot 1 None True,
      Eol]"

text \<open>
  \<open>parseTags\<close>: every piece between semicolons is split at \<open>=\<close>; a piece with a non-empty
  key and a value is stored, a later one over an earlier one. The tags are kept in a plain
  object, where an assignment of a string to the key \<open>__proto__\<close> stores nothing.
\<close>

definition storeTag :: "(string \<rightharpoonup> string) \<Rightarrow> string \<Rightarrow> (string \<rightharpoonup> string)" where
  "storeTag tags tag =
     (case split CHR ''='' tag of
        key # val # _ \<Rightarrow>
          if key \<noteq> [] \<and> key \<noteq> ''__proto__'' then tags(key \<mapsto> val) else tags
      | _ \<Rightarrow> tags)"

definition parseTags :: "string \<Rightarrow> (string \<rightharpoonup> string)" where
  "parseTags tagsString =
     (if tagsString = [] then Map.empty
      else foldl storeTag Map.empty (split CHR '';'' tagsString))"

definition badgeName :: "string \<Rightarrow> string" where
  "badgeName badge = (case split CHR ''/'' badge of [] \<Rightarrow> [] | name # _ \<Rightarrow> name)"

definition parseBadges :: "string \<Rightarrow> string list" where
  "parseBadges badgesString =
     (if badgesString = [] then []
      else filter (\<lambda>name. name \<noteq> []) (map badgeName (split CHR '','' badgesString)))"

text \<open>
  \<open>isUserBot\<close>: the six patterns, the first one \<open>/bot$/i\<close> without \<open>^\<close>, then the
  badge string searched for \<open>bot\<close>.
\<close>

definition botPatterns :: "(bool \<times> item list) list" where
  "botPatterns =
     [(False, [LitI ''bot'', Eol]),
      (True, [LitI ''nightbot'', Eol]),
      (True, [LitI ''streamlabs'', Eol]),
      (True, [LitI ''streamelements'', Eol]),
      (True, [LitI ''moobot'', Eol]),
      (True, [LitI ''fossabot'', Eol])]"

definition test :: "bool \<times> item list \<Rightarrow> string \<Rightarrow> bool" where
  "test pattern s =
     (if fst pattern then test_anchored (snd pattern) s else test_search (snd pattern) None s)"

definition isUserBot :: "string \<Rightarrow> string \<Rightarrow> bool" where
  "isUserBot uname badgeString =
     (if list_ex (\<lambda>pattern. test pattern uname) botPatterns then True
      else if includesStr badgeString ''bot'' then True
      else False)"

text \<open>
  \<open>parseIRCMessage\<close>. The fresh id and the clock reading come from the environment and are
  parameters here.
\<close>

definition badgesTag :: "(string \<rightharpoonup> string) \<Rightarrow> string" where
  "badgesTag tags = (case tags ''badges'' of None \<Rightarrow> [] | Some v \<Rightarrow> v)"

definition parseIRCMessage :: "string \<Rightarrow> nat \<Rightarrow> string \<Rightarrow> ChatMessage option" where
  "parseIRCMessage newId now line =
     (case exec_items privmsgRegex None line [] of
        Some ([tagsString, uname, msg], _) \<Rightarrow>
          Some \<lparr> cm_id = newId, username = uname, message = msg, timestamp = now,
                 isBot = isUserBot uname (badgesTag (parseTags tagsString)),
                 badges = parseBadges (badgesTag (parseTags tagsString)) \<rparr>
      | _ \<Rightarrow> None)"



section \<open>The filter of the integration layer\<close>

record TTSSettings =
  enabled :: bool
  filterBots :: bool
  minMessageLength :: nat
  blockedUsers :: "string list"
  skipEmoteOnly :: bool

text \<open>\<open>/^[A-Z\s]+$/\<close>\<close>

definition emoteRegex :: "item list" where
  "emoteRegex = [Rep (\<lambda>c. isUpperAZ c \<or> isSpace c) 1 None False, Eol]"

definition isLikelyEmoteOnly :: "string \<Rightarrow> bool" where
  "isLikelyEmoteOnly text = (test_anchored emoteRegex text \<and> length text < 20)"

definition shouldProcessMessage :: "TTSSettings \<Rightarrow> ChatMessage \<Rightarrow> bool" where
  "shouldProcessMessage settings m =
     (if \<not> enabled settings then False
      else if filterBots settings \<and> isBot m then False
      else if length (message m) < minMessageLength settings then False
      else if toLowerCase (username m) \<in> set (blockedUsers settings) then False
      else if skipEmoteOnly settings \<and> isLikelyEmoteOnly (message m) then False
      else True)"

section \<open>The chat client: connection and reconnection\<close>

datatype ConnectionStatus = Disconnected | Connecting | Connected | Error

datatype chatEvent = ChatConnected | ChatDisconnected | ChatError string

text \<open>
  The fields of \<open>TwitchChatService\<close>, and what the program leaves with the browser: the
  timers that are armed (identifier and delay, in the order they were armed), the next
  timer identifier (the browser hands out positive numbers), the number of transports
  opened so far, and the events emitted to the listeners. The frames written to the
  transport are not part of the model.
\<close>

record Client =
  ws :: "nat option"
  connectionStatus :: ConnectionStatus
  reconnectAttempts :: nat
  reconnectTimeout :: "nat option"
  isReconnecting :: bool
  isIntentionalDisconnect :: bool
  timers :: "(nat \<times> nat) list"
  nextTimer :: nat
  sockets :: nat
  emitted :: "chatEvent list"

definition maxReconnectAttempts :: nat where
  "maxReconnectAttempts = 10"

definition baseReconnectDelay :: nat where
  "baseReconnectDelay = 1000"

definition initClient :: Client where
  "initClient =
     \<lparr> ws = None, connectionStatus = Disconnected, reconnectAttempts = 0,
       reconnectTimeout = None, isReconnecting = False, isIntentionalDisconnect = False,
       timers = [], nextTimer = 1, sockets = 0, emitted = [] \<rparr>"

definition emit :: "chatEvent \<Rightarrow> Client \<Rightarrow> Client" where
  "emit e s = s\<lparr>emitted := emitted s @ [e]\<rparr>"

definition setConnectionStatus :: "ConnectionStatus \<Rightarrow> Client \<Rightarrow> Client" where
  "setConnectionStatus st s = s\<lparr>connectionStatus := st\<rparr>"

definition clearTimeout :: "nat \<Rightarrow> Client \<Rightarrow> Client" where
  "clearTimeout t s = s\<lparr>timers := filter (\<lambda>entry. fst entry \<noteq> t) (timers s)\<rparr>"

definition clearReconnectTimeout :: "Client \<Rightarrow> Client" where
  "clearReconnectTimeout s =
     (case reconnectTimeout s of
        Some t \<Rightarrow> (clearTimeout t s)\<lparr>reconnectTimeout := None, isReconnecting := False\<rparr>
      | None \<Rightarrow> s\<lparr>isReconnecting := False\<rparr>)"

definition reconnectDelay :: "nat \<Rightarrow> nat" where
  "reconnectDelay attempts = min (baseReconnectDelay * 2 ^ attempts) 30000"

definition scheduleReconnect :: "Client \<Rightarrow> Client" where
  "scheduleReconnect s =
     (if maxReconnectAttempts \<le> reconnectAttempts s
      then (emit (ChatError ''Max reconnection attempts reached'') s)\<lparr>isReconnecting := False\<rparr>
      else if isReconnecting s then s
      else
        let s1 = clearReconnectTimeout (s\<lparr>isReconnecting := True\<rparr>);
            delay = reconnectDelay (reconnectAttempts s1)
        in s1\<lparr>reconnectTimeout := Some (nextTimer s1),
               timers := timers s1 @ [(nextTimer s1, delay)],
               nextTimer := Suc (nextTimer s1)\<rparr>)"

definition handleConnectionError :: "string \<Rightarrow> Client \<Rightarrow> Client" where
  "handleConnectionError err s =
     (let s1 = emit (ChatError err) (setConnectionStatus Error s)
      in if isIntentionalDisconnect s1 then s1 else scheduleReconnect s1)"

definition handleConnectionClose :: "Client \<Rightarrow> Client" where
  "handleConnectionClose s =
     (let s1 = emit ChatDisconnected (setConnectionStatus Disconnected (s\<lparr>ws := None\<rparr>))
      in if isIntentionalDisconnect s1 then s1 else scheduleReconnect s1)"

definition handleConnectionOpen :: "Client \<Rightarrow> Client" where
  "handleConnectionOpen s =
     emit ChatConnected (setConnectionStatus Connected (s\<lparr>reconnectAttempts := 0\<rparr>))"

text \<open>
  \<open>connect\<close>. Whether \<open>new WebSocket\<close> throws is the environment's: \<open>thrown\<close> is the
  exception's text, if any.
\<close>

definition connect :: "string option \<Rightarrow> Client \<Rightarrow> Client" where
  "connect thrown s =
     (if connectionStatus s = Connecting \<or> connectionStatus s = Connected then s
      else if isIntentionalDisconnect s then s
      else
        let s1 = setConnectionStatus Connecting (s\<lparr>isIntentionalDisconnect := False\<rparr>)
        in (case thrown of
              None \<Rightarrow> s1\<lparr>ws := Some (sockets s1), sockets := Suc (sockets s1)\<rparr>
            | Some e \<Rightarrow>
                handleConnectionError (''Failed to create WebSocket connection: '' @ e) s1))"

definition disconnect :: "Client \<Rightarrow> Client" where
  "disconnect s =
     (let s1 = clearReconnectTimeout (s\<lparr>isIntentionalDisconnect := True\<rparr>);
          s2 = s1\<lparr>ws := None\<rparr>
      in emit ChatDisconnected (setConnectionStatus Disconnected s2))"

text \<open>
  The callback of the reconnect timer \<open>t\<close>, run by the browser when \<open>t\<close> is still armed:
  it counts the attempt, connects, and lowers \<open>isReconnecting\<close> when \<open>connect\<close> has
  returned.
\<close>

definition timerFired :: "nat \<Rightarrow> string option \<Rightarrow> Client \<Rightarrow> Client" where
  "timerFired t thrown s =
     (if t \<in> set (map fst (timers s))
      then (connect thrown
              ((clearTimeout t s)\<lparr>reconnectAttempts := Suc (reconnectAttempts s)\<rparr>))
           \<lparr>isReconnecting := False\<rparr>
      else s)"

text \<open>
  What can happen to a client: the two calls of its user, the three callbacks of a
  transport, and a timer running out.
\<close>

datatype clientEvent =
    Connect "string option"
  | Disconnect
  | SocketOpen
  | SocketClose
  | SocketError string
  | TimerFired nat "string option"

fun clientStep :: "Client \<Rightarrow> clientEvent \<Rightarrow> Client" where
  "clientStep s (Connect thrown) = connect thrown s"
| "clientStep s Disconnect = disconnect s"
| "clientStep s SocketOpen = handleConnectionOpen s"
| "clientStep s SocketClose = handleConnectionClose s"
| "clientStep s (SocketError err) = handleConnectionError err s"
| "clientStep s (TimerFired t thrown) = timerFired t thrown s"

definition clientRun :: "Client \<Rightarrow> clientEvent list \<Rightarrow> Client" where
  "clientRun s es = foldl clientStep s es"

fun isSocketOpen :: "clientEvent \<Rightarrow> bool" where
  "isSocketOpen SocketOpen = True"
| "isSocketOpen _ = False"

section \<open>The narration engine adapter: preparing a text\<close>

text \<open>
  \<open>text.replace(re, rep)\<close> for a pattern with the flag \<open>g\<close>: the text is scanned from
  the left, a match is replaced and the scan goes on behind it, a unit where nothing
  matches is kept. (After an empty match the scan moves one unit on; no pattern of the
  source matches the empty text.)
\<close>

function replaceAll :: "item list \<Rightarrow> string \<Rightarrow> char option \<Rightarrow> string \<Rightarrow> string" where
  "replaceAll re rep prev s =
     (case exec_items re prev s [] of
        Some (caps, rest) \<Rightarrow>
          if length rest < length s
          then rep @ replaceAll re rep (lastOf prev (take (length s - length rest) s)) rest
          else (case s of [] \<Rightarrow> rep | c # t \<Rightarrow> rep @ c # replaceAll re rep (Some c) t)
      | None \<Rightarrow> (case s of [] \<Rightarrow> [] | c # t \<Rightarrow> c # replaceAll re rep (Some c) t))"
  by pat_completeness auto
termination
  by (relation "measure (\<lambda>(re, rep, prev, s). length s)") auto

text \<open>\<open>/https?:\/\/[^\s]+/g\<close>\<close>

definition urlRegex :: "item list" where
  "urlRegex =
     [Lit ''http'', Rep (\<lambda>c. c = CHR ''s'') 0 (Some 1) False, Lit ''://'',
      Rep (\<lambda>c. \<not> isSpace c) 1 None False]"

text \<open>\<open>/\b[A-Z]{3,}\b/g\<close>\<close>

definition capsRegex :: "item list" where
  "capsRegex = [WordB, Rep isUpperAZ 3 None False, WordB]"

text \<open>\<open>/[^\w\s.,!?'-]/g\<close>\<close>

definition isKept :: "char \<Rightarrow> bool" where
  "isKept c = (isWord c \<or> isSpace c
               \<or> c \<in> set [CHR ''.'', CHR '','', CHR ''!'', CHR ''?'', CHR 0x27, CHR ''-''])"

definition specialRegex :: "item list" where
  "specialRegex = [Rep (\<lambda>c. \<not> isKept c) 1 (Some 1) False]"

text \<open>\<open>/\s+/g\<close>\<close>

definition spacesRegex :: "item list" where
  "spacesRegex = [Rep isSpace 1 None False]"

definition preprocessMessage :: "string \<Rightarrow> string" where
  "preprocessMessage text =
     (let p1 = replaceAll urlRegex ''link'' None text;
          p2 = replaceAll capsRegex [] None p1;
          p3 = replaceAll specialRegex '' '' None p2;
          p4 = replaceAll spacesRegex '' '' None p3;
          p5 = trim p4
      in if 200 < length p5 then take 200 p5 @ ''...'' else p5)"

section \<open>The narration queue\<close>

datatype Status = Pending | Speaking | Completed

text \<open>
  A queue item is an object: its \<open>status\<close> is written through whatever reference holds it.
  The model keeps the two fields that never change in the item and the status of every
  item ever made in a store of its own, by the item's id. Ids are handed out in sequence,
  in place of the clock and the random number of the source.
\<close>

record TTSQueueItem =
  item_id :: nat
  item_message :: ChatMessage

datatype queueEvent = QueueUpdated "nat list" | QueueCleared

datatype logEntry = TtsErrorLogged nat string | ProcessingErrorLogged string

text \<open>
  The state of \<open>QueueManager\<close> (\<open>queue\<close>, \<open>currentItem\<close>, \<open>isProcessing\<close>), of
  \<open>TTSService\<close> (\<open>settings\<close>, \<open>supported\<close>, \<open>currentUtterance\<close>: the item the utterance
  at hand was made for) and of the browser: the utterances handed to
  \<open>speechSynthesis\<close> and not yet ended (\<open>speaking\<close> is true when there is one), the
  utterances cancelled whose last event has not come yet, the number of \<open>setTimeout\<close>
  callbacks of \<open>processNext\<close> that wait, and the runs of \<open>processNext\<close> that wait on a
  rejected promise, each with the rejection's text. \<open>speakCalls\<close> records every call of
  \<open>TTSService.speak\<close>, \<open>narrated\<close> every utterance handed to
  \<open>speechSynthesis.speak\<close> (the calls of \<open>TTSService.speak\<close> that were not refused),
  \<open>errorLog\<close> every \<open>console.error\<close> of the queue.
\<close>

record Engine =
  queue :: "TTSQueueItem list"
  currentItem :: "TTSQueueItem option"
  isProcessing :: bool
  status :: "nat \<Rightarrow> Status option"
  nextItemId :: nat
  queueEvents :: "queueEvent list"
  settings :: TTSSettings
  supported :: bool
  currentUtterance :: "TTSQueueItem option"
  utterances :: "TTSQueueItem list"
  cancelled :: "TTSQueueItem list"
  timeouts :: nat
  rejections :: "string list"
  speakCalls :: "TTSQueueItem list"
  narrated :: "TTSQueueItem list"
  errorLog :: "logEntry list"

definition initEngine :: "TTSSettings \<Rightarrow> bool \<Rightarrow> Engine" where
  "initEngine initialSettings isSupported =
     \<lparr> queue = [], currentItem = None, isProcessing = False, status = (\<lambda>i. None),
       nextItemId = 0, queueEvents = [], settings = initialSettings,
       supported = isSupported, currentUtterance = None, utterances = [], cancelled = [],
       timeouts = 0, rejections = [], speakCalls = [], narrated = [], errorLog = [] \<rparr>"

definition isSpeaking :: "Engine \<Rightarrow> bool" where
  "isSpeaking s = (utterances s \<noteq> [])"

definition stop :: "Engine \<Rightarrow> Engine" where
  "stop s =
     (let s1 = if utterances s \<noteq> []
               then s\<lparr>cancelled := cancelled s @ utterances s, utterances := []\<rparr>
               else s
      in s1\<lparr>currentUtterance := None\<rparr>)"

definition setStatus :: "TTSQueueItem \<Rightarrow> Status \<Rightarrow> Engine \<Rightarrow> Engine" where
  "setStatus queueItem st s = s\<lparr>status := (status s)(item_id queueItem \<mapsto> st)\<rparr>"

definition emitQueueUpdate :: "Engine \<Rightarrow> Engine" where
  "emitQueueUpdate s =
     s\<lparr>queueEvents := queueEvents s @
         [QueueUpdated (map item_id
            (case currentItem s of Some c \<Rightarrow> c # queue s | None \<Rightarrow> queue s))]\<rparr>"

text \<open>
  \<open>processNext\<close>, \<open>TTSService.speak\<close> and the listener \<open>handleTTSError\<close> call each other:
  \<open>speak\<close> emits \<open>tts:error\<close> before it throws, the listener runs at once and calls
  \<open>processNext\<close>. \<open>speak\<close> returns the text it throws, if it throws; \<open>processNext\<close> then
  waits on the rejected promise, and its \<open>catch\<close> block runs later (\<open>runRejections\<close>).
\<close>

function processNext :: "Engine \<Rightarrow> Engine"
  and speak :: "TTSQueueItem \<Rightarrow> Engine \<Rightarrow> string option \<times> Engine"
  and handleTTSError :: "TTSQueueItem \<Rightarrow> string \<Rightarrow> Engine \<Rightarrow> Engine"
where
  "processNext s =
     (if isProcessing s \<or> queue s = [] then s
      else
        (case queue s of
           [] \<Rightarrow> s
         | nextItem # rest \<Rightarrow>
             (case speak nextItem
                     (emitQueueUpdate
                        (setStatus nextItem Speaking
                           (s\<lparr>isProcessing := True, queue := rest,
                               currentItem := Some nextItem\<rparr>))) of
                (None, s') \<Rightarrow> s'
              | (Some err, s') \<Rightarrow> s'\<lparr>rejections := rejections s' @ [err]\<rparr>)))"
| "speak queueItem s =
     (if \<not> supported s
      then (Some ''TTS is not supported or disabled'',
            s\<lparr>speakCalls := speakCalls s @ [queueItem]\<rparr>)
      else if \<not> enabled (settings s)
      then (Some ''TTS is not supported or disabled'',
            s\<lparr>speakCalls := speakCalls s @ [queueItem]\<rparr>)
      else if currentUtterance s \<noteq> None
      then (Some ''Another message is currently being spoken'',
            s\<lparr>speakCalls := speakCalls s @ [queueItem]\<rparr>)
      else if trim (preprocessMessage (message (item_message queueItem))) = []
      then (Some ''Message is empty after preprocessing'',
            handleTTSError queueItem ''Message is empty after preprocessing''
              (s\<lparr>speakCalls := speakCalls s @ [queueItem], currentUtterance := None\<rparr>))
      else (None,
            s\<lparr>speakCalls := speakCalls s @ [queueItem],
               currentUtterance := Some queueItem,
               utterances := utterances s @ [queueItem],
               narrated := narrated s @ [queueItem]\<rparr>))"
| "handleTTSError queueItem err s =
     (case currentItem s of
        None \<Rightarrow> s\<lparr>errorLog := errorLog s @ [TtsErrorLogged (item_id queueItem) err]\<rparr>
      | Some c \<Rightarrow>
          if item_id c = item_id queueItem
          then processNext
                 (emitQueueUpdate
                    (setStatus c Completed
                       (s\<lparr>errorLog := errorLog s @ [TtsErrorLogged (item_id queueItem) err],
                           currentItem := None, isProcessing := False\<rparr>)))
          else s\<lparr>errorLog := errorLog s @ [TtsErrorLogged (item_id queueItem) err]\<rparr>)"
  by pat_completeness auto

termination
  by (relation "measure (\<lambda>x. case x of
        Inl s \<Rightarrow> 3 * length (queue s)
      | Inr (Inl (queueItem, s)) \<Rightarrow> 3 * length (queue s) + 2
      | Inr (Inr (queueItem, err, s)) \<Rightarrow> 3 * length (queue s) + 1)")
     (auto simp: emitQueueUpdate_def setStatus_def)

declare processNext.simps [simp del] speak.simps [simp del] handleTTSError.simps [simp del]

definition handleTTSEnded :: "TTSQueueItem \<Rightarrow> Engine \<Rightarrow> Engine" where
  "handleTTSEnded queueItem s =
     (case currentItem s of
        None \<Rightarrow> s
      | Some c \<Rightarrow>
          if item_id c = item_id queueItem
          then processNext
                 (emitQueueUpdate
                    (setStatus c Completed (s\<lparr>currentItem := None, isProcessing := False\<rparr>)))
          else s)"

text \<open>The \<open>catch\<close> block of \<open>processNext\<close>, for a promise rejected with \<open>err\<close>.\<close>

definition catchBlock :: "string \<Rightarrow> Engine \<Rightarrow> Engine" where
  "catchBlock err s =
     (let s1 = s\<lparr>errorLog := errorLog s @ [ProcessingErrorLogged err]\<rparr>;
          s2 = (case currentItem s1 of
                  None \<Rightarrow> s1
                | Some c \<Rightarrow> (setStatus c Completed s1)\<lparr>currentItem := None\<rparr>)
      in processNext (s2\<lparr>isProcessing := False\<rparr>))"

text \<open>
  Every call of \<open>processNext\<close> takes at most as many items off the queue as it leaves
  rejections behind, which bounds the work of the \<open>catch\<close> blocks.
\<close>

definition load :: "Engine \<Rightarrow> nat" where
  "load s = length (rejections s) + length (queue s)"

lemma load_processNext:
  "load (processNext s) \<le> load s"
  "load (snd (speak queueItem s)) \<le> load s"
  "load (handleTTSError queueItem err s) \<le> load s"
proof (induction s and queueItem s and queueItem err s rule: processNext_speak_handleTTSError.induct)
  case (1 s)
  show ?case
  proof (cases "isProcessing s \<or> queue s = []")
    case True
    then show ?thesis by (simp add: processNext.simps)
  next
    case False
    then obtain nextItem rest where q: "queue s = nextItem # rest"
      by (cases "queue s") auto
    let ?s1 = "emitQueueUpdate (setStatus nextItem Speaking
                 (s\<lparr>isProcessing := True, queue := rest, currentItem := Some nextItem\<rparr>))"
    have "load (snd (speak nextItem ?s1)) \<le> load ?s1"
      using "1.IH" [OF False q] .
    moreover have "Suc (load ?s1) = load s"
      by (simp add: load_def emitQueueUpdate_def setStatus_def q)
    ultimately show ?thesis
      using False q
      by (cases "speak nextItem ?s1")
         (auto simp: processNext.simps [of s] load_def split: option.splits)
  qed
next
  case (2 queueItem s)
  then show ?case
    by (auto simp: speak.simps [of queueItem s] load_def)
next
  case (3 queueItem err s)
  then show ?case
    by (auto simp: handleTTSError.simps [of queueItem err s] load_def emitQueueUpdate_def
          setStatus_def split: option.splits)
qed

text \<open>
  The \<open>catch\<close> blocks that wait run one after the other, before anything else happens;
  each may leave a new one behind.
\<close>

function runRejections :: "Engine \<Rightarrow> Engine" where
  "runRejections s =
     (case rejections s of
        [] \<Rightarrow> s
      | err # others \<Rightarrow> runRejections (catchBlock err (s\<lparr>rejections := others\<rparr>)))"
  by pat_completeness auto

lemma load_catchBlock:
  assumes "rejections s = err # others"
  shows "load (catchBlock err (s\<lparr>rejections := others\<rparr>)) < load s"
proof -
  define s1 where
    "s1 = s\<lparr>rejections := others, errorLog := errorLog s @ [ProcessingErrorLogged err]\<rparr>"
  define s2 where
    "s2 = (case currentItem s1 of
             None \<Rightarrow> s1
           | Some c \<Rightarrow> (setStatus c Completed s1)\<lparr>currentItem := None\<rparr>)"
  have "catchBlock err (s\<lparr>rejections := others\<rparr>) = processNext (s2\<lparr>isProcessing := False\<rparr>)"
    unfolding catchBlock_def s1_def s2_def Let_def by (simp cong: option.case_cong)
  moreover have "load (processNext (s2\<lparr>isProcessing := False\<rparr>)) \<le> load (s2\<lparr>isProcessing := False\<rparr>)"
    by (rule load_processNext)
  moreover have "load (s2\<lparr>isProcessing := False\<rparr>) < load s"
    using assms by (simp add: load_def s1_def s2_def setStatus_def split: option.splits)
  ultimately show ?thesis
    by simp
qed

termination runRejections
  by (relation "measure load") (auto simp: load_catchBlock)

declare runRejections.simps [simp del] replaceAll.simps [simp del]

definition add :: "ChatMessage \<Rightarrow> Engine \<Rightarrow> TTSQueueItem \<times> Engine" where
  "add m s =
     (let queueItem = \<lparr> item_id = nextItemId s, item_message = m \<rparr>;
          s1 = setStatus queueItem Pending (s\<lparr>nextItemId := Suc (nextItemId s)\<rparr>);
          s2 = emitQueueUpdate (s1\<lparr>queue := queue s1 @ [queueItem]\<rparr>)
      in (queueItem, if isProcessing s2 then s2 else s2\<lparr>timeouts := Suc (timeouts s2)\<rparr>))"

definition remove :: "nat \<Rightarrow> Engine \<Rightarrow> bool \<times> Engine" where
  "remove itemId s =
     (if (case currentItem s of None \<Rightarrow> False | Some c \<Rightarrow> item_id c = itemId)
      then
        let s1 = if isSpeaking s then stop s else s;
            s2 = emitQueueUpdate (s1\<lparr>currentItem := None, isProcessing := False\<rparr>)
        in (True, s2\<lparr>timeouts := Suc (timeouts s2)\<rparr>)
      else
        let s1 = s\<lparr>queue := filter (\<lambda>queueItem. item_id queueItem \<noteq> itemId) (queue s)\<rparr>;
            wasRemoved = (length (queue s1) < length (queue s))
        in (wasRemoved, if wasRemoved then emitQueueUpdate s1 else s1))"

definition clear :: "Engine \<Rightarrow> Engine" where
  "clear s =
     (let s1 = if currentItem s \<noteq> None \<and> isSpeaking s then stop s else s;
          s2 = s1\<lparr>queue := [], currentItem := None, isProcessing := False\<rparr>
      in emitQueueUpdate (s2\<lparr>queueEvents := queueEvents s2 @ [QueueCleared]\<rparr>))"

definition skip :: "Engine \<Rightarrow> bool \<times> Engine" where
  "skip s =
     (case currentItem s of
        None \<Rightarrow> (False, s)
      | Some c \<Rightarrow>
          if isSpeaking s
          then (True, processNext ((setStatus c Completed (stop s))\<lparr>currentItem := None\<rparr>))
          else (False, s))"

text \<open>
  The handlers \<open>onend\<close> and \<open>onerror\<close> of the utterance made for the item \<open>i\<close>; the
  browser calls one of them when the utterance is over, also after a \<open>cancel\<close>.
\<close>

definition utteranceOf :: "nat \<Rightarrow> Engine \<Rightarrow> TTSQueueItem option" where
  "utteranceOf i s = find (\<lambda>u. item_id u = i) (utterances s @ cancelled s)"

definition over :: "nat \<Rightarrow> Engine \<Rightarrow> Engine" where
  "over i s =
     s\<lparr>utterances := filter (\<lambda>u. item_id u \<noteq> i) (utterances s),
        cancelled := filter (\<lambda>u. item_id u \<noteq> i) (cancelled s)\<rparr>"

definition onend :: "nat \<Rightarrow> Engine \<Rightarrow> Engine" where
  "onend i s =
     (case utteranceOf i s of
        None \<Rightarrow> s
      | Some queueItem \<Rightarrow> handleTTSEnded queueItem ((over i s)\<lparr>currentUtterance := None\<rparr>))"

definition onerror :: "nat \<Rightarrow> string \<Rightarrow> Engine \<Rightarrow> Engine" where
  "onerror i e s =
     (case utteranceOf i s of
        None \<Rightarrow> s
      | Some queueItem \<Rightarrow>
          handleTTSError queueItem (''Speech synthesis error: '' @ e)
            ((over i s)\<lparr>currentUtterance := None\<rparr>))"

text \<open>
  What can happen to the queue: the four calls of its user, a \<open>setTimeout\<close> callback
  coming due, and the end or the failure of an utterance. Each is one turn of the event
  loop, which ends with the \<open>catch\<close> blocks that wait.
\<close>

datatype engineEvent =
    Add ChatMessage
  | Remove nat
  | Clear
  | Skip
  | Timeout
  | UtteranceEnd nat
  | UtteranceError nat string

fun engineStep :: "Engine \<Rightarrow> engineEvent \<Rightarrow> Engine" where
  "engineStep s (Add m) = runRejections (snd (add m s))"
| "engineStep s (Remove itemId) = runRejections (snd (remove itemId s))"
| "engineStep s Clear = runRejections (clear s)"
| "engineStep s Skip = runRejections (snd (skip s))"
| "engineStep s Timeout =
     (if timeouts s = 0 then s
      else runRejections (processNext (s\<lparr>timeouts := timeouts s - 1\<rparr>)))"
| "engineStep s (UtteranceEnd i) = runRejections (onend i s)"
| "engineStep s (UtteranceError i e) = runRejections (onerror i e s)"

definition engineRun :: "Engine \<Rightarrow> engineEvent list \<Rightarrow> Engine" where
  "engineRun s es = foldl engineStep s es"

section \<open>Properties of the parser\<close>

subsection \<open>What the pattern of a chat line accepts\<close>































subsection \<open>Names that end in bot\<close>

text \<open>
  A user name ends in \<open>bot\<close>, whatever the case of the letters: its last three units, in
  lower case, are \<open>bot\<close>.
\<close>

definition endsWithBot :: "string \<Rightarrow> bool" where
  "endsWithBot uname =
     (3 \<le> length uname \<and> toLowerCase (drop (length uname - 3) uname) = ''bot'')"

lemma code_char_of: "n < 256 \<Longrightarrow> code (char_of n) = n"
  by (simp add: code_def)

lemma char_of_code: "char_of (code c) = c"
  by (simp add: code_def)

lemma code_bound: "code c < 256"
  by (simp add: code_def)

lemma canon_lower:
  assumes "toLowerChar x = y" "97 \<le> code y" "code y \<le> 122"
  shows "canon x = canon y"
proof (cases "65 \<le> code x \<and> code x \<le> 90")
  case True
  then have y: "y = char_of (code x + 32)"
    using assms(1) by (simp add: toLowerChar_def)
  from True have "code y = code x + 32"
    unfolding y by (intro code_char_of) simp
  then have "canon y = char_of (code x)"
    using True by (simp add: canon_def)
  moreover from True have "canon x = x"
    by (simp add: canon_def)
  ultimately show ?thesis
    by (simp add: char_of_code)
next
  case False
  show ?thesis
  proof (cases "192 \<le> code x \<and> code x \<le> 222 \<and> code x \<noteq> 215")
    case True
    then have y: "y = char_of (code x + 32)"
      using assms(1) False by (simp add: toLowerChar_def)
    from True have "code y = code x + 32"
      unfolding y by (intro code_char_of) simp
    with True assms(3) show ?thesis
      by simp
  next
    case False
    with \<open>\<not> (65 \<le> code x \<and> code x \<le> 90)\<close> have "toLowerChar x = x"
      by (auto simp: toLowerChar_def)
    with assms(1) show ?thesis
      by simp
  qed
qed

lemma bot_codes: "code CHR ''b'' = 98" "code CHR ''o'' = 111" "code CHR ''t'' = 116"
  by (simp_all add: code_def)

lemma lastOf_Cons: "lastOf prev (c # p) = lastOf (Some c) p"
  by (cases "rev p") (simp_all add: lastOf_def)

lemma test_search_suffix:
  "test_search re (lastOf prev p) s \<Longrightarrow> test_search re prev (p @ s)"
proof (induction p arbitrary: prev)
  case Nil
  then show ?case by (simp add: lastOf_def)
next
  case (Cons c p)
  then show ?case by (simp add: lastOf_Cons)
qed

lemma bot_matches:
  assumes "toLowerCase [x, y, z] = ''bot''"
  shows "exec_items [LitI ''bot'', Eol] prev [x, y, z] [] \<noteq> None"
proof -
  from assms have "toLowerChar x = CHR ''b''" "toLowerChar y = CHR ''o''" "toLowerChar z = CHR ''t''"
    by (simp_all add: toLowerCase_def)
  then have "canon x = canon CHR ''b''" "canon y = canon CHR ''o''" "canon z = canon CHR ''t''"
    by (auto intro!: canon_lower simp: bot_codes)
  then show ?thesis
    by simp
qed

lemma endsWithBot_search:
  assumes "endsWithBot uname"
  shows "test_search [LitI ''bot'', Eol] None uname"
proof -
  define p where "p = take (length uname - 3) uname"
  define s where "s = drop (length uname - 3) uname"
  from assms have len: "length s = 3" and low: "toLowerCase s = ''bot''"
    by (simp_all add: endsWithBot_def s_def)
  from len obtain x y z where s: "s = [x, y, z]"
    by (cases s; cases "tl s"; cases "tl (tl s)") auto
  have "exec_items [LitI ''bot'', Eol] (lastOf None p) [x, y, z] [] \<noteq> None"
    using low unfolding s by (rule bot_matches)
  then have "test_search [LitI ''bot'', Eol] (lastOf None p) s"
    unfolding s by simp
  then have "test_search [LitI ''bot'', Eol] None (p @ s)"
    by (rule test_search_suffix)
  then show ?thesis
    by (simp add: p_def s_def)
qed

lemma endsWithBot_isUserBot:
  assumes "endsWithBot uname"
  shows "isUserBot uname badgeString"
  using endsWithBot_search [OF assms]
  by (simp add: isUserBot_def botPatterns_def test_def)

lemma parseIRCMessage_isBot:
  assumes "parseIRCMessage newId now line = Some m"
  shows "\<exists>tagsString. isBot m = isUserBot (username m) tagsString"
  using assms
  by (auto simp: parseIRCMessage_def split: option.splits list.splits prod.splits)


text \<open>
  Claim C10. A user name that ends in \<open>bot\<close>, in any case, makes \<open>isUserBot\<close> true
  whatever the badges are, through the pattern \<open>/bot$/i\<close>; so every parsed message of
  such a user has \<open>isBot\<close> true, also with no bot badge and with a name that is none of the
  five names listed.
\<close>

theorem bot_suffix_is_automated:
  "(endsWithBot uname \<longrightarrow> isUserBot uname badgeString)
   \<and> (parseIRCMessage newId now line = Some m \<and> endsWithBot (username m) \<longrightarrow> isBot m)"
  using endsWithBot_isUserBot parseIRCMessage_isBot by blast

lemma helper_line:
  "parseIRCMessage ''id'' 0
     ''@badges=subscriber/3 :HelperBot!helperbot@helperbot.tmi.twitch.tv PRIVMSG #chan :hi all''
   = Some \<lparr> cm_id = ''id'', username = ''HelperBot'', message = ''hi all'', timestamp = 0,
             isBot = True, badges = [''subscriber''] \<rparr>"
  by code_simp

lemma helper_ends: "endsWithBot ''HelperBot''"
  by code_simp

theorem bot_suffix_is_automated_witness:
  "endsWithBot ''HelperBot''
   \<and> isUserBot ''HelperBot'' ''subscriber/3''
   \<and> parseIRCMessage ''id'' 0
        ''@badges=subscriber/3 :HelperBot!helperbot@helperbot.tmi.twitch.tv PRIVMSG #chan :hi all''
      = Some \<lparr> cm_id = ''id'', username = ''HelperBot'', message = ''hi all'', timestamp = 0,
                isBot = True, badges = [''subscriber''] \<rparr>
   \<and> isBot \<lparr> cm_id = ''id'', username = ''HelperBot'', message = ''hi all'', timestamp = 0,
              isBot = True, badges = [''subscriber''] \<rparr>"
proof -
  let ?line = "''@badges=subscriber/3 :HelperBot!helperbot@helperbot.tmi.twitch.tv PRIVMSG #chan :hi all''"
  let ?m = "\<lparr> cm_id = ''id'', username = ''HelperBot'', message = ''hi all'', timestamp = 0,
              isBot = True, badges = [''subscriber''] \<rparr>"
  have e: "endsWithBot (username ?m)"
    using helper_ends by simp
  from bot_suffix_is_automated [of "''HelperBot''" "''subscriber/3''" "''id''" 0 ?line ?m]
    helper_ends
  have a: "isUserBot ''HelperBot'' ''subscriber/3''"
    by (elim conjE) (erule mp)
  from bot_suffix_is_automated [of "''HelperBot''" "''subscriber/3''" "''id''" 0 ?line ?m]
    helper_line e
  have b: "isBot ?m"
    by (elim conjE) (erule mp, intro conjI)
  from helper_ends a helper_line b show ?thesis
    by (intro conjI)
qed

section \<open>Properties of the filter\<close>

lemma toLowerCase_examples:
  "toLowerCase ''bob'' = ''bob''" "toLowerCase ''Bob'' = ''bob''"
  "toLowerCase ''alice'' = ''alice''"
  by code_simp+

lemma hello_not_emote: "isLikelyEmoteOnly ''hello'' = False"
  by code_simp

text \<open>
  Claim C9. With the filter enabled, a least length of 3 and \<open>bob\<close> blocked (whatever the
  other settings are), a message of \<open>bob\<close> with the text \<open>hi there\<close> is rejected, also when
  the name arrives as \<open>Bob\<close>, since the name is compared in lower case; a message of
  \<open>alice\<close> with the text \<open>hi\<close> is rejected, and a message of \<open>alice\<close>, who is no bot, with
  the text \<open>hello\<close> passes. In general a message passes exactly when all five conditions
  hold.
\<close>

theorem filter_scenario:
  "shouldProcessMessage
      (cfg\<lparr>enabled := True, minMessageLength := 3, blockedUsers := [''bob'']\<rparr>)
      (m\<lparr>username := ''bob'', message := ''hi there''\<rparr>) = False
   \<and> shouldProcessMessage
      (cfg\<lparr>enabled := True, minMessageLength := 3, blockedUsers := [''bob'']\<rparr>)
      (m\<lparr>username := ''Bob'', message := ''hi there''\<rparr>) = False
   \<and> shouldProcessMessage
      (cfg\<lparr>enabled := True, minMessageLength := 3, blockedUsers := [''bob'']\<rparr>)
      (m\<lparr>username := ''alice'', message := ''hi''\<rparr>) = False
   \<and> shouldProcessMessage
      (cfg\<lparr>enabled := True, minMessageLength := 3, blockedUsers := [''bob'']\<rparr>)
      (m\<lparr>username := ''alice'', message := ''hello'', isBot := False\<rparr>) = True
   \<and> shouldProcessMessage cfg' m' =
       (enabled cfg'
        \<and> \<not> (filterBots cfg' \<and> isBot m')
        \<and> minMessageLength cfg' \<le> length (message m')
        \<and> toLowerCase (username m') \<notin> set (blockedUsers cfg')
        \<and> \<not> (skipEmoteOnly cfg' \<and> isLikelyEmoteOnly (message m')))"
  by (simp add: shouldProcessMessage_def toLowerCase_examples hello_not_emote)

section \<open>Properties of the chat client\<close>

lemmas client_defs = connect_def disconnect_def handleConnectionOpen_def handleConnectionClose_def
  handleConnectionError_def scheduleReconnect_def clearReconnectTimeout_def clearTimeout_def
  timerFired_def emit_def setConnectionStatus_def

lemma reconnectDelay_first:
  "reconnectDelay 0 = 1000" "reconnectDelay 1 = 2000" "reconnectDelay 2 = 4000"
  "reconnectDelay 3 = 8000" "reconnectDelay 4 = 16000"
  by (simp_all add: reconnectDelay_def baseReconnectDelay_def)

lemma reconnectDelay_capped:
  assumes "5 \<le> n"
  shows "reconnectDelay n = 30000"
proof -
  from assms have "(2::nat) ^ 5 \<le> 2 ^ n"
    by (intro power_increasing) simp_all
  then have "(30000::nat) \<le> 1000 * 2 ^ n"
    by simp
  then show ?thesis
    by (simp add: reconnectDelay_def baseReconnectDelay_def)
qed

lemma scheduleReconnect_arms:
  assumes "reconnectAttempts s < 10" "\<not> isReconnecting s"
  shows "timers (scheduleReconnect s) =
           timers (clearReconnectTimeout s) @ [(nextTimer s, reconnectDelay (reconnectAttempts s))]"
  using assms
  by (simp add: scheduleReconnect_def maxReconnectAttempts_def clearReconnectTimeout_def
        clearTimeout_def Let_def split: option.splits)

lemma scheduleReconnect_ceiling:
  assumes "10 \<le> reconnectAttempts s"
  shows "scheduleReconnect s =
           s\<lparr>emitted := emitted s @ [ChatError ''Max reconnection attempts reached''],
              isReconnecting := False\<rparr>"
  using assms by (simp add: scheduleReconnect_def maxReconnectAttempts_def emit_def)


definition givenUp :: "Client \<Rightarrow> bool" where
  "givenUp s = (10 \<le> reconnectAttempts s \<and> timers s = [])"

lemma givenUp_step:
  assumes "givenUp s" "\<not> isSocketOpen e"
  shows "givenUp (clientStep s e) \<and> reconnectAttempts (clientStep s e) = reconnectAttempts s"
  using assms
  by (cases e)
     (auto simp: givenUp_def client_defs maxReconnectAttempts_def Let_def
           split: option.splits)

lemma givenUp_run:
  assumes "givenUp s" "\<not> list_ex isSocketOpen es"
  shows "givenUp (clientRun s es) \<and> reconnectAttempts (clientRun s es) = reconnectAttempts s"
  using assms unfolding clientRun_def
proof (induction es arbitrary: s)
  case Nil
  then show ?case by simp
next
  case (Cons e es)
  from Cons.prems have e: "\<not> isSocketOpen e" and es: "\<not> list_ex isSocketOpen es"
    by simp_all
  from givenUp_step [OF Cons.prems(1) e]
  have g: "givenUp (clientStep s e)" and r: "reconnectAttempts (clientStep s e) = reconnectAttempts s"
    by simp_all
  from Cons.IH [OF g es] r show ?case
    by simp
qed


text \<open>
  Claim C6. With the base delay of 1000 ms the delay for the attempt counter 0, 1, 2, 3, 4
  is 1000, 2000, 4000, 8000, 16000 ms, and 30000 ms from the counter 5 on. Below the
  ceiling, and with no reconnection marked as under way, \<open>scheduleReconnect\<close> arms a timer
  with that delay. At the ceiling of 10 it arms none and emits the error
  \<open>Max reconnection attempts reached\<close>; and from then on, as long as no transport opens,
  no event arms a timer or changes the counter.
\<close>

theorem reconnect_backoff:
  "baseReconnectDelay = 1000 \<and> maxReconnectAttempts = 10
   \<and> reconnectDelay 0 = 1000 \<and> reconnectDelay 1 = 2000 \<and> reconnectDelay 2 = 4000
   \<and> reconnectDelay 3 = 8000 \<and> reconnectDelay 4 = 16000
   \<and> (\<forall>n. 5 \<le> n \<longrightarrow> reconnectDelay n = 30000)
   \<and> (\<forall>s. reconnectAttempts s < maxReconnectAttempts \<and> \<not> isReconnecting s \<longrightarrow>
         timers (scheduleReconnect s) =
           timers (clearReconnectTimeout s) @ [(nextTimer s, reconnectDelay (reconnectAttempts s))])
   \<and> (\<forall>s. maxReconnectAttempts \<le> reconnectAttempts s \<longrightarrow>
         scheduleReconnect s =
           s\<lparr>emitted := emitted s @ [ChatError ''Max reconnection attempts reached''],
              isReconnecting := False\<rparr>)
   \<and> (\<forall>s es. maxReconnectAttempts \<le> reconnectAttempts s \<and> timers s = []
         \<and> \<not> list_ex isSocketOpen es \<longrightarrow>
         timers (clientRun s es) = [] \<and> reconnectAttempts (clientRun s es) = reconnectAttempts s)"
  using reconnectDelay_first reconnectDelay_capped scheduleReconnect_arms
    scheduleReconnect_ceiling givenUp_run
  by (simp add: maxReconnectAttempts_def baseReconnectDelay_def givenUp_def)

theorem reconnect_backoff_witness:
  "(5::nat) \<le> 7 \<and> reconnectDelay 7 = 30000
   \<and> reconnectAttempts (initClient\<lparr>reconnectAttempts := 3\<rparr>) < maxReconnectAttempts
   \<and> timers (scheduleReconnect (initClient\<lparr>reconnectAttempts := 3\<rparr>)) = [(1, 8000)]
   \<and> maxReconnectAttempts \<le> reconnectAttempts (initClient\<lparr>reconnectAttempts := 10\<rparr>)
   \<and> emitted (scheduleReconnect (initClient\<lparr>reconnectAttempts := 10\<rparr>))
       = [ChatError ''Max reconnection attempts reached'']
   \<and> timers (clientRun (initClient\<lparr>reconnectAttempts := 10\<rparr>)
               [SocketError ''down'', SocketClose, Connect None, SocketClose]) = []"
proof -
  let ?s = "initClient\<lparr>reconnectAttempts := 10\<rparr>"
  let ?es = "[SocketError ''down'', SocketClose, Connect None, SocketClose]"
  have a: "maxReconnectAttempts \<le> reconnectAttempts ?s \<and> timers ?s = []
           \<and> \<not> list_ex isSocketOpen ?es"
    by (simp add: maxReconnectAttempts_def initClient_def)
  have b: "reconnectAttempts (initClient\<lparr>reconnectAttempts := 3\<rparr>) < maxReconnectAttempts
           \<and> \<not> isReconnecting (initClient\<lparr>reconnectAttempts := 3\<rparr>)"
    by (simp add: maxReconnectAttempts_def initClient_def)
  from reconnect_backoff have "reconnectDelay 7 = 30000"
    by simp
  moreover from reconnect_backoff a have "timers (clientRun ?s ?es) = []"
    by blast
  moreover from reconnect_backoff a
  have "emitted (scheduleReconnect ?s) = [ChatError ''Max reconnection attempts reached'']"
    by (simp add: initClient_def)
  moreover from reconnect_backoff b
  have "timers (scheduleReconnect (initClient\<lparr>reconnectAttempts := 3\<rparr>)) = [(1, 8000)]"
    by (simp add: initClient_def clearReconnectTimeout_def)
  ultimately show ?thesis
    using a b by simp
qed

lemma intentional_step:
  "isIntentionalDisconnect s \<Longrightarrow> isIntentionalDisconnect (clientStep s e)"
  by (cases e) (auto simp: client_defs Let_def split: option.splits)

lemma intentional_run:
  "isIntentionalDisconnect s \<Longrightarrow> isIntentionalDisconnect (clientRun s es)"
  unfolding clientRun_def
  by (induction es arbitrary: s) (simp_all add: intentional_step)

lemma intentional_disconnect: "isIntentionalDisconnect (disconnect s)"
  by (simp add: client_defs Let_def split: option.splits)


lemma connect_opens_transport:
  assumes "connectionStatus s \<noteq> Connecting" "connectionStatus s \<noteq> Connected"
    "\<not> isIntentionalDisconnect s"
  shows "connectionStatus (connect None s) = Connecting"
    and "ws (connect None s) = Some (sockets s)"
    and "sockets (connect None s) = Suc (sockets s)"
  using assms by (simp_all add: connect_def setConnectionStatus_def)

lemma connect_noop_iff:
  "(connect None s = s) =
     (connectionStatus s = Connecting \<or> connectionStatus s = Connected
      \<or> isIntentionalDisconnect s)"
proof
  assume same: "connect None s = s"
  show "connectionStatus s = Connecting \<or> connectionStatus s = Connected
        \<or> isIntentionalDisconnect s"
  proof (rule ccontr)
    assume "\<not> (connectionStatus s = Connecting \<or> connectionStatus s = Connected
        \<or> isIntentionalDisconnect s)"
    then have "sockets (connect None s) = Suc (sockets s)"
      by (intro connect_opens_transport) simp_all
    with same show False
      by simp
  qed
next
  assume "connectionStatus s = Connecting \<or> connectionStatus s = Connected
        \<or> isIntentionalDisconnect s"
  then show "connect None s = s"
    by (auto simp: connect_def)
qed

text \<open>
  Claim C5, where the code departs from it. \<open>disconnect\<close> raises
  \<open>isIntentionalDisconnect\<close> and nothing lowers it again: the assignment in \<open>connect\<close>
  stands behind the test that returns when the flag is up. So after a \<open>disconnect\<close>,
  whatever happens next, \<open>connect\<close> changes nothing; for a client that was connected and
  then disconnected by its user, a later \<open>connect\<close> leaves it disconnected and opens no
  second transport.
\<close>

theorem connect_after_disconnect:
  "connect thrown (clientRun (disconnect s) es) = clientRun (disconnect s) es
   \<and> connectionStatus (clientRun initClient [Connect None, SocketOpen, Disconnect, Connect None])
       = Disconnected
   \<and> sockets (clientRun initClient [Connect None, SocketOpen, Disconnect, Connect None]) = 1"
  using intentional_run [OF intentional_disconnect, of s es]
  by (simp add: connect_def)
     (simp add: clientRun_def initClient_def client_defs)

text \<open>
  The timers of a client: in every state it can reach, \<open>isReconnecting\<close> is down, at most
  one timer is armed, and an armed timer is the one \<open>reconnectTimeout\<close> holds.
\<close>

definition timerInv :: "Client \<Rightarrow> bool" where
  "timerInv s = (\<not> isReconnecting s \<and> length (timers s) \<le> 1 \<and>
     list_all (\<lambda>entry. reconnectTimeout s = Some (fst entry)) (timers s))"

lemma filter_all_out:
  "list_all (\<lambda>entry. Some t = Some (fst entry)) xs \<Longrightarrow> filter (\<lambda>entry. fst entry \<noteq> t) xs = []"
  by (induction xs) auto

lemma all_false_nil: "list_all (\<lambda>entry. False) xs = (xs = [])"
  by (cases xs) auto

lemma timerInv_clear: "timerInv s \<Longrightarrow> timerInv (clearReconnectTimeout s)"
  by (auto simp: timerInv_def clearReconnectTimeout_def clearTimeout_def filter_all_out
        split: option.splits)

lemma timerInv_schedule: "timerInv s \<Longrightarrow> timerInv (scheduleReconnect s)"
  by (auto simp: timerInv_def scheduleReconnect_def clearReconnectTimeout_def clearTimeout_def
        emit_def Let_def filter_all_out all_false_nil split: option.splits)

lemma timerInv_fields:
  "timerInv (s\<lparr>connectionStatus := a\<rparr>) = timerInv s"
  "timerInv (s\<lparr>ws := b\<rparr>) = timerInv s"
  "timerInv (s\<lparr>emitted := c\<rparr>) = timerInv s"
  "timerInv (s\<lparr>isIntentionalDisconnect := d\<rparr>) = timerInv s"
  "timerInv (s\<lparr>sockets := f\<rparr>) = timerInv s"
  "timerInv (s\<lparr>reconnectAttempts := g\<rparr>) = timerInv s"
  by (simp_all add: timerInv_def)

lemma timerInv_error: "timerInv s \<Longrightarrow> timerInv (handleConnectionError err s)"
  by (simp add: handleConnectionError_def emit_def setConnectionStatus_def Let_def
        timerInv_fields timerInv_schedule)

lemma timerInv_close: "timerInv s \<Longrightarrow> timerInv (handleConnectionClose s)"
  by (simp add: handleConnectionClose_def emit_def setConnectionStatus_def Let_def
        timerInv_fields timerInv_schedule)

lemma timerInv_connect: "timerInv s \<Longrightarrow> timerInv (connect thrown s)"
  by (simp add: connect_def setConnectionStatus_def Let_def timerInv_fields timerInv_error
        split: option.splits)

lemma timerInv_disconnect: "timerInv s \<Longrightarrow> timerInv (disconnect s)"
  by (simp add: disconnect_def emit_def setConnectionStatus_def Let_def timerInv_fields
        timerInv_clear)

lemma timerInv_clearTimeout: "timerInv s \<Longrightarrow> timerInv (clearTimeout t s)"
proof -
  assume inv: "timerInv s"
  from inv have "length (timers s) \<le> 1"
    by (simp add: timerInv_def)
  then have "length (filter (\<lambda>entry. fst entry \<noteq> t) (timers s)) \<le> 1"
    by (rule order_trans [OF length_filter_le])
  with inv show ?thesis
    by (auto simp: timerInv_def clearTimeout_def list_all_iff)
qed

lemma timerInv_fired: "timerInv s \<Longrightarrow> timerInv (timerFired t thrown s)"
proof -
  assume inv: "timerInv s"
  have "timerInv (connect thrown ((clearTimeout t s)\<lparr>reconnectAttempts := Suc (reconnectAttempts s)\<rparr>))"
    by (intro timerInv_connect) (simp add: timerInv_fields timerInv_clearTimeout inv)
  then have "timerInv ((connect thrown ((clearTimeout t s)\<lparr>reconnectAttempts := Suc (reconnectAttempts s)\<rparr>))\<lparr>isReconnecting := False\<rparr>)"
    by (simp add: timerInv_def)
  with inv show ?thesis
    by (simp add: timerFired_def)
qed

lemma timerInv_step: "timerInv s \<Longrightarrow> timerInv (clientStep s e)"
  by (cases e)
     (simp_all add: timerInv_connect timerInv_disconnect timerInv_close timerInv_error
        timerInv_fired handleConnectionOpen_def emit_def setConnectionStatus_def timerInv_fields)

lemma timerInv_run: "timerInv s \<Longrightarrow> timerInv (clientRun s es)"
  unfolding clientRun_def
  by (induction es arbitrary: s) (simp_all add: timerInv_step)

lemma timerInv_init: "timerInv initClient"
  by (simp add: timerInv_def initClient_def)

lemma at_most_one_timer: "length (timers (clientRun initClient es)) \<le> 1"
  using timerInv_run [OF timerInv_init, of es] by (simp add: timerInv_def)

lemma request_example:
  "timers (clientRun initClient [Connect None, SocketError ''failed'']) = [(1, 1000)]"
  "timers (clientRun initClient [Connect None, SocketError ''failed'', SocketClose]) = [(2, 1000)]"
  by (simp_all add: clientRun_def initClient_def client_defs maxReconnectAttempts_def
        reconnectDelay_def baseReconnectDelay_def)


text \<open>
  Claim C7, where the code departs from it. At most one timer is ever armed
  (\<open>at_most_one_timer\<close>), but no request is refused: \<open>scheduleReconnect\<close> raises
  \<open>isReconnecting\<close> and at once calls \<open>clearReconnectTimeout\<close>, which lowers it, so in no
  state a client can reach is the flag up and the test for it never holds. A transport
  error arms timer 1; the close of the same transport, with timer 1 pending, cancels it
  and arms timer 2.
\<close>

theorem second_request_not_refused:
  "\<not> isReconnecting (clientRun initClient es)
   \<and> timers (clientRun initClient [Connect None, SocketError ''failed'']) = [(1, 1000)]
   \<and> timers (clientRun initClient [Connect None, SocketError ''failed'', SocketClose])
       = [(2, 1000)]"
  using timerInv_run [OF timerInv_init, of es] request_example
  by (simp add: timerInv_def)

section \<open>Properties of the narration queue\<close>

text \<open>
  The settings and the messages of the repository's own tests of \<open>QueueManager\<close>.
\<close>

definition mockTTSSettings :: TTSSettings where
  "mockTTSSettings =
     \<lparr> enabled = True, filterBots = False, minMessageLength = 1, blockedUsers = [],
       skipEmoteOnly = False \<rparr>"

definition createTestMessage :: "string \<Rightarrow> string \<Rightarrow> ChatMessage" where
  "createTestMessage msgId text =
     \<lparr> cm_id = msgId, username = ''testuser'', message = text, timestamp = 0, isBot = False,
       badges = [] \<rparr>"

text \<open>
  Two messages are added and the first \<open>setTimeout\<close> callback has run: the first item is
  being narrated, the second waits.
\<close>

definition narrating :: Engine where
  "narrating =
     engineRun (initEngine mockTTSSettings True)
       [Add (createTestMessage ''1'' ''First''), Add (createTestMessage ''2'' ''Second''),
        Timeout]"

definition firstItem :: TTSQueueItem where
  "firstItem = \<lparr> item_id = 0, item_message = createTestMessage ''1'' ''First'' \<rparr>"

definition secondItem :: TTSQueueItem where
  "secondItem = \<lparr> item_id = 1, item_message = createTestMessage ''2'' ''Second'' \<rparr>"

lemma narrating_state:
  "currentItem narrating = Some firstItem"
  "queue narrating = [secondItem]"
  "isProcessing narrating"
  "rejections narrating = []"
  "utterances narrating = [firstItem]"
  "cancelled narrating = []"
  "speakCalls narrating = [firstItem]"
  "status narrating 0 = Some Speaking"
  by code_simp+

subsection \<open>The calls of the narration engine\<close>














lemma runRejections_none: "rejections s = [] \<Longrightarrow> runRejections s = s"
  by (simp add: runRejections.simps [of s])

lemma engineRun_append: "engineRun s (es @ fs) = engineRun (engineRun s es) fs"
  by (simp add: engineRun_def)

subsection \<open>Narration follows the order of arrival\<close>



































subsection \<open>A failure of the narration engine\<close>

lemma handleTTSError_as_ended:
  "handleTTSError queueItem err s =
     handleTTSEnded queueItem
       (s\<lparr>errorLog := errorLog s @ [TtsErrorLogged (item_id queueItem) err]\<rparr>)"
  by (simp add: handleTTSError.simps [of queueItem err s] handleTTSEnded_def setStatus_def
        split: option.splits)

lemma utteranceOf_id: "utteranceOf i s = Some queueItem \<Longrightarrow> item_id queueItem = i"
  by (auto simp: utteranceOf_def find_Some_iff)

lemma onerror_as_onend:
  assumes "utteranceOf i s = Some queueItem"
  shows "onerror i e s =
           onend i (s\<lparr>errorLog := errorLog s @
                        [TtsErrorLogged i (''Speech synthesis error: '' @ e)]\<rparr>)"
proof -
  define msg where "msg = ''Speech synthesis error: '' @ e"
  let ?s' = "s\<lparr>errorLog := errorLog s @ [TtsErrorLogged i msg]\<rparr>"
  have u: "utteranceOf i ?s' = Some queueItem"
    using assms by (simp add: utteranceOf_def)
  have i: "item_id queueItem = i"
    using assms by (rule utteranceOf_id)
  have "(over i ?s')\<lparr>currentUtterance := None\<rparr> =
          ((over i s)\<lparr>currentUtterance := None\<rparr>)
            \<lparr>errorLog := errorLog ((over i s)\<lparr>currentUtterance := None\<rparr>) @
                           [TtsErrorLogged (item_id queueItem) msg]\<rparr>"
    by (simp add: over_def i)
  then have "onend i ?s' = handleTTSError queueItem msg ((over i s)\<lparr>currentUtterance := None\<rparr>)"
    using u by (simp add: onend_def handleTTSError_as_ended)
  moreover have "onerror i e s = handleTTSError queueItem msg ((over i s)\<lparr>currentUtterance := None\<rparr>)"
    using assms by (simp add: onerror_def msg_def)
  ultimately show ?thesis
    by (simp add: msg_def)
qed

lemma error_turn_as_end_turn:
  assumes "utteranceOf i s = Some queueItem"
  shows "engineStep s (UtteranceError i e) =
           engineStep (s\<lparr>errorLog := errorLog s @
                          [TtsErrorLogged i (''Speech synthesis error: '' @ e)]\<rparr>)
                      (UtteranceEnd i)"
  using onerror_as_onend [OF assms] by simp

text \<open>
  Claim C4, where the code departs from it. A failure of an utterance that is with the
  browser reaches the queue through the listener alone, and the listener does what the
  listener for \<open>tts:ended\<close> does (lemma \<open>error_turn_as_end_turn\<close>): with \<open>First\<close>
  failing while \<open>Second\<close> and \<open>Third\<close> wait, \<open>First\<close> is marked completed, \<open>Second\<close>
  is started and becomes the active item and \<open>Third\<close> waits. But for a text that is
  empty after preprocessing \<open>speak\<close> emits \<open>tts:error\<close> and then throws, and the one
  failure is handled by the listener and, afterwards, by the \<open>catch\<close> block of
  \<open>processNext\<close>. With \<open>@@@\<close> added before \<open>Second\<close> and \<open>Third\<close>: the listener
  discards \<open>@@@\<close> and starts \<open>Second\<close>; the \<open>catch\<close> block then discards the active
  item, by now \<open>Second\<close>, whose utterance is with the browser, and hands \<open>Third\<close> to
  \<open>speak\<close>, which refuses it because an utterance is in progress; \<open>Third\<close> is marked
  completed and dropped. The failure is in the log twice, the active slot is empty
  while \<open>Second\<close> is spoken, and \<open>Third\<close> is never narrated, also when the utterance of
  \<open>Second\<close> has ended.
\<close>

theorem emitted_and_thrown_error_drops_next:
  "(let s = engineRun (initEngine mockTTSSettings True)
              [Add (createTestMessage ''1'' ''First''), Add (createTestMessage ''2'' ''Second''),
               Add (createTestMessage ''3'' ''Third''), Timeout,
               UtteranceError 0 ''synthesis-failed'']
    in errorLog s = [TtsErrorLogged 0 ''Speech synthesis error: synthesis-failed'']
       \<and> status s 0 = Some Completed
       \<and> map_option item_id (currentItem s) = Some 1
       \<and> status s 1 = Some Speaking
       \<and> map item_id (utterances s) = [1]
       \<and> map item_id (narrated s) = [0, 1]
       \<and> map item_id (queue s) = [2]
       \<and> status s 2 = Some Pending)
   \<and> (let s = engineRun (initEngine mockTTSSettings True)
              [Add (createTestMessage ''1'' ''@@@''), Add (createTestMessage ''2'' ''Second''),
               Add (createTestMessage ''3'' ''Third''), Timeout]
       in errorLog s =
            [TtsErrorLogged 0 ''Message is empty after preprocessing'',
             ProcessingErrorLogged ''Message is empty after preprocessing'',
             ProcessingErrorLogged ''Another message is currently being spoken'']
          \<and> status s 0 = Some Completed
          \<and> currentItem s = None
          \<and> status s 1 = Some Completed
          \<and> map item_id (utterances s) = [1]
          \<and> map item_id (narrated s) = [1]
          \<and> queue s = []
          \<and> status s 2 = Some Completed)
   \<and> (let s = engineRun (initEngine mockTTSSettings True)
              [Add (createTestMessage ''1'' ''@@@''), Add (createTestMessage ''2'' ''Second''),
               Add (createTestMessage ''3'' ''Third''), Timeout, UtteranceEnd 1]
       in currentItem s = None \<and> queue s = [] \<and> utterances s = []
          \<and> map item_id (narrated s) = [1])"
  by code_simp

subsection \<open>Skipping the active item\<close>

definition stuck :: "Engine \<Rightarrow> bool" where
  "stuck s = (isProcessing s \<and> currentItem s = None \<and> rejections s = [])"

lemma stuck_step:
  assumes "stuck s" "e \<noteq> Clear"
  shows "stuck (engineStep s e) \<and> speakCalls (engineStep s e) = speakCalls s"
proof -
  have p: "\<And>t. isProcessing t \<Longrightarrow> processNext t = t"
    by (simp add: processNext.simps)
  have r: "\<And>t. rejections t = [] \<Longrightarrow> runRejections t = t"
    by (rule runRejections_none)
  from assms show ?thesis
    by (cases e)
       (simp_all add: stuck_def p r add_def remove_def skip_def onend_def onerror_def
          handleTTSEnded_def handleTTSError.simps over_def emitQueueUpdate_def setStatus_def
          Let_def split: option.splits)
qed

lemma stuck_run:
  assumes "stuck s" "Clear \<notin> set es"
  shows "stuck (engineRun s es) \<and> speakCalls (engineRun s es) = speakCalls s"
  using assms unfolding engineRun_def
proof (induction es arbitrary: s)
  case Nil
  then show ?case by simp
next
  case (Cons e es)
  from Cons.prems have "e \<noteq> Clear" "Clear \<notin> set es"
    by auto
  from stuck_step [OF Cons.prems(1) this(1)] Cons.IH [OF _ this(2), of "engineStep s e"]
  show ?case by simp
qed

lemma skip_no_advance:
  assumes "isProcessing s" "currentItem s = Some c" "isSpeaking s"
  shows "skip s = (True, (setStatus c Completed (stop s))\<lparr>currentItem := None\<rparr>)"
  using assms
  by (simp add: skip_def processNext.simps stop_def setStatus_def isSpeaking_def)

lemma skip_refused:
  "(fst (skip s) = False) = (currentItem s = None \<or> \<not> isSpeaking s)"
  by (simp add: skip_def split: option.splits)

lemma skip_refused_unchanged:
  "fst (skip s) = False \<Longrightarrow> snd (skip s) = s"
  by (simp add: skip_def split: option.splits if_splits)

text \<open>
  Claim C3, where the code departs from it. \<open>skip\<close> stops the engine, marks the active
  item completed, clears the active slot and returns true, but it calls \<open>processNext\<close>
  with \<open>isProcessing\<close> still up (\<open>remove\<close> lowers it first), so \<open>processNext\<close>
  returns at once. With the first item narrating and the second waiting: after \<open>skip\<close>
  the second item still waits, nothing is active and \<open>isProcessing\<close> is up; and
  whatever follows short of a \<open>clear\<close> (the last event of the stopped utterance, timer
  callbacks, further additions, removals and skips), nothing becomes active and \<open>speak\<close>
  is never called again.
\<close>

theorem skip_leaves_queue_stuck:
  "fst (skip narrating) = True
   \<and> currentItem (snd (skip narrating)) = None
   \<and> status (snd (skip narrating)) (item_id firstItem) = Some Completed
   \<and> utterances (snd (skip narrating)) = []
   \<and> queue (snd (skip narrating)) = [secondItem]
   \<and> isProcessing (snd (skip narrating))
   \<and> currentItem (engineRun narrating (Skip # filter (\<lambda>e. e \<noteq> Clear) es)) = None
   \<and> speakCalls (engineRun narrating (Skip # filter (\<lambda>e. e \<noteq> Clear) es)) = [firstItem]"
proof -
  let ?s = "(setStatus firstItem Completed (stop narrating))\<lparr>currentItem := None\<rparr>"
  have sk: "skip narrating = (True, ?s)"
    by (rule skip_no_advance) (simp_all add: narrating_state isSpeaking_def)
  have st: "stuck ?s"
    by (simp add: stuck_def setStatus_def stop_def narrating_state)
  have "engineStep narrating Skip = ?s"
    by (simp add: sk runRejections_none setStatus_def stop_def narrating_state)
  then have run: "engineRun narrating (Skip # filter (\<lambda>e. e \<noteq> Clear) es)
                  = engineRun ?s (filter (\<lambda>e. e \<noteq> Clear) es)"
    by (simp add: engineRun_def)
  have "Clear \<notin> set (filter (\<lambda>e. e \<noteq> Clear) es)"
    by simp
  from stuck_run [OF st this]
  have "currentItem (engineRun ?s (filter (\<lambda>e. e \<noteq> Clear) es)) = None"
    and "speakCalls (engineRun ?s (filter (\<lambda>e. e \<noteq> Clear) es)) = [firstItem]"
    by (simp_all add: stuck_def setStatus_def stop_def narrating_state)
  then show ?thesis
    unfolding run sk
    by (simp add: setStatus_def stop_def narrating_state)
qed

subsection \<open>A failure that is reported twice\<close>

text \<open>
  Claim C1, where the code departs from it. For a text that is empty after preprocessing,
  \<open>speak\<close> emits \<open>tts:error\<close> and then throws. The listener clears the active slot and
  starts the next item; the \<open>catch\<close> block of \<open>processNext\<close>, run for the same failure
  afterwards, clears the active slot again, which by now holds the next item. With the
  text \<open>@@@\<close> added before \<open>Second\<close>: when the turn is over the utterance for
  \<open>Second\<close> is with the browser and \<open>speechSynthesis.speaking\<close> is true, but the active
  slot is empty and \<open>isProcessing\<close> is down. A third item that waits is then handed to
  \<open>speak\<close> while the engine is busy, is refused and is marked completed.
\<close>

theorem active_slot_empty_while_speaking:
  "(let s = engineRun (initEngine mockTTSSettings True)
              [Add (createTestMessage ''1'' ''@@@''), Add (createTestMessage ''2'' ''Second''),
               Timeout]
    in currentItem s = None \<and> \<not> isProcessing s \<and> queue s = [] \<and> rejections s = []
       \<and> isSpeaking s
       \<and> map item_id (utterances s) = [1]
       \<and> map_option item_id (currentUtterance s) = Some 1
       \<and> map item_id (speakCalls s) = [0, 1])
   \<and> (let s = engineRun (initEngine mockTTSSettings True)
              [Add (createTestMessage ''1'' ''@@@''), Add (createTestMessage ''2'' ''Second''),
               Add (createTestMessage ''3'' ''Third''), Timeout]
       in currentItem s = None \<and> queue s = []
          \<and> map item_id (utterances s) = [1]
          \<and> map item_id (speakCalls s) = [0, 1, 2]
          \<and> status s 2 = Some Completed)"
  by code_simp

end
